theory Spec2Isabelle
  imports Main "HOL-Library.AList"
begin

section \<open>Python values\<close>

text \<open>
  A Python \<open>str\<close> is a sequence of Unicode code points and \<open>len\<close> counts code points,
  so a string is a list of code points. \<open>str\<close> turns an Isabelle string literal into one.
  Python's \<open>int\<close> is unbounded: \<open>int\<close>.
\<close>

type_synonym pystr = "nat list"

definition str :: "string \<Rightarrow> pystr" where
  "str s = map of_char s"

text \<open>
  The values \<open>json.load\<close> returns and \<open>json.dump\<close> accepts: \<open>None\<close>, \<open>bool\<close>, \<open>int\<close>,
  \<open>str\<close>, \<open>list\<close> and \<open>dict\<close> with string keys (a dict as an association list in insertion
  order, looked up with \<open>map_of\<close>). JSON numbers with a fraction or an exponent
  (Python \<open>float\<close>) are outside the model.
\<close>

datatype json =
    JNull
  | JBool bool
  | JInt int
  | JStr pystr
  | JArr "json list"
  | JObj "(pystr \<times> json) list"

text \<open>The exceptions the code and the library calls it makes can raise.\<close>

datatype error =
    TypeError
  | KeyError
  | ValueError
  | ValidationError
  | JSONDecodeError

text \<open>
  \<open>for x in v\<close> over a loaded JSON value: a list gives its elements, a dict its keys,
  a string its characters; the other values are not iterable.
\<close>

fun py_iter :: "json \<Rightarrow> error + json list" where
  "py_iter (JArr xs) = Inr xs"
| "py_iter (JObj kvs) = Inr (map (\<lambda>kv. JStr (fst kv)) kvs)"
| "py_iter (JStr s) = Inr (map (\<lambda>c. JStr [c]) s)"
| "py_iter JNull = Inl TypeError"
| "py_iter (JBool b) = Inl TypeError"
| "py_iter (JInt n) = Inl TypeError"

text \<open>
  \<open>v[key]\<close> with a string key: a dict gives the value or raises \<open>KeyError\<close>; a list or a
  string wants an integer index, and the other values are not subscriptable
  (\<open>TypeError\<close>).
\<close>

fun py_getitem :: "json \<Rightarrow> pystr \<Rightarrow> error + json" where
  "py_getitem (JObj kvs) key = (case map_of kvs key of None \<Rightarrow> Inl KeyError | Some v \<Rightarrow> Inr v)"
| "py_getitem (JArr xs) key = Inl TypeError"
| "py_getitem (JStr s) key = Inl TypeError"
| "py_getitem JNull key = Inl TypeError"
| "py_getitem (JBool b) key = Inl TypeError"
| "py_getitem (JInt n) key = Inl TypeError"

text \<open>
  \<open>str.isspace\<close> for one code point: the code points Python's \<open>str.strip()\<close> removes.
\<close>

definition isspace :: "nat \<Rightarrow> bool" where
  "isspace c \<longleftrightarrow>
     (9 \<le> c \<and> c \<le> 13) \<or> (28 \<le> c \<and> c \<le> 32) \<or> c = 133 \<or> c = 160 \<or> c = 5760 \<or>
     (8192 \<le> c \<and> c \<le> 8202) \<or> c = 8232 \<or> c = 8233 \<or> c = 8239 \<or> c = 8287 \<or> c = 12288"

definition lstrip :: "pystr \<Rightarrow> pystr" where
  "lstrip s = dropWhile isspace s"

definition rstrip :: "pystr \<Rightarrow> pystr" where
  "rstrip s = rev (dropWhile isspace (rev s))"

definition strip :: "pystr \<Rightarrow> pystr" where
  "strip s = rstrip (lstrip s)"

section \<open>models.py\<close>

definition MIN_TEXT_LENGTH :: nat where
  "MIN_TEXT_LENGTH = 2"

text \<open>
  \<open>TodoCreate\<close> and its subclass \<open>Todo\<close>. The field names carry a prefix, since
  \<open>text\<close>, \<open>done\<close> and \<open>id\<close> are taken in Isabelle.
\<close>

record TodoCreate =
  t_text :: pystr
  t_done :: bool

record Todo = TodoCreate +
  t_id :: int

definition k_text :: pystr where "k_text = str ''text''"
definition k_done :: pystr where "k_done = str ''done''"
definition k_id :: pystr where "k_id = str ''id''"

text \<open>
  \<open>TodoCreate.validate_text\<close>, as written: the \<open>isinstance\<close> check, \<open>strip\<close>, the
  length check.
\<close>

definition validate_text :: "json \<Rightarrow> error + pystr" where
  "validate_text v =
     (case v of
        JStr s \<Rightarrow>
          (let s' = strip s in
           if length s' < MIN_TEXT_LENGTH then Inl ValueError else Inr s')
      | _ \<Rightarrow> Inl TypeError)"

text \<open>
  Pydantic's validation of one field, given the value passed for it (\<open>None\<close>: the key is
  absent). The declared type is checked first; \<open>validate_text\<close> is an after-validator, so
  it runs on a value that passed the \<open>str\<close> check, and a \<open>ValueError\<close> it raises becomes a
  \<open>ValidationError\<close> (another exception passes through). \<open>done\<close> has the default \<open>False\<close>;
  \<open>text\<close> and \<open>id\<close> are required.

  The models set no strict mode, so pydantic validates in lax mode: an \<open>int\<close> field takes
  an integer, a boolean (\<open>True\<close> as 1) and a string that pydantic reads as an integer; a
  \<open>bool\<close> field takes a boolean, the integers 0 and 1, and a string that pydantic reads
  as a boolean; a \<open>str\<close> field takes a string only. Which strings pydantic reads as an
  integer or as a boolean is pydantic's own code, not the repository's, and the integer
  strings differ between its versions (signs, blanks, underscores, a fraction of
  zeros): the two conversions are parameters of the validation, \<open>str_as_int\<close> and
  \<open>str_as_bool\<close>.
\<close>

record lax =
  str_as_int :: "pystr \<Rightarrow> int option"
  str_as_bool :: "pystr \<Rightarrow> bool option"

definition field_text :: "json option \<Rightarrow> error + pystr" where
  "field_text v =
     (case v of
        Some (JStr s) \<Rightarrow>
          (case validate_text (JStr s) of
             Inl ValueError \<Rightarrow> Inl ValidationError
           | Inl e \<Rightarrow> Inl e
           | Inr s' \<Rightarrow> Inr s')
      | _ \<Rightarrow> Inl ValidationError)"

definition field_done :: "lax \<Rightarrow> json option \<Rightarrow> error + bool" where
  "field_done L v =
     (case v of
        None \<Rightarrow> Inr False
      | Some (JBool b) \<Rightarrow> Inr b
      | Some (JInt n) \<Rightarrow>
          (if n = 0 then Inr False else if n = 1 then Inr True else Inl ValidationError)
      | Some (JStr s) \<Rightarrow>
          (case str_as_bool L s of None \<Rightarrow> Inl ValidationError | Some b \<Rightarrow> Inr b)
      | Some _ \<Rightarrow> Inl ValidationError)"

definition field_id :: "lax \<Rightarrow> json option \<Rightarrow> error + int" where
  "field_id L v =
     (case v of
        Some (JInt n) \<Rightarrow> Inr n
      | Some (JBool b) \<Rightarrow> Inr (if b then 1 else 0)
      | Some (JStr s) \<Rightarrow>
          (case str_as_int L s of None \<Rightarrow> Inl ValidationError | Some n \<Rightarrow> Inr n)
      | _ \<Rightarrow> Inl ValidationError)"

text \<open>
  \<open>TodoCreate.model_validate(data)\<close> and \<open>Todo.model_validate(data)\<close> on a loaded JSON
  value: every field is validated and any failure raises one \<open>ValidationError\<close>; keys
  that name no field are ignored.
\<close>

definition TodoCreate_model_validate :: "lax \<Rightarrow> json \<Rightarrow> error + TodoCreate" where
  "TodoCreate_model_validate L data =
     (case data of
        JObj kvs \<Rightarrow>
          (case field_text (map_of kvs k_text) of
             Inl e \<Rightarrow> Inl e
           | Inr s \<Rightarrow>
               (case field_done L (map_of kvs k_done) of
                  Inl e \<Rightarrow> Inl e
                | Inr d \<Rightarrow> Inr \<lparr>t_text = s, t_done = d\<rparr>))
      | _ \<Rightarrow> Inl ValidationError)"

definition Todo_model_validate :: "lax \<Rightarrow> json \<Rightarrow> error + Todo" where
  "Todo_model_validate L data =
     (case data of
        JObj kvs \<Rightarrow>
          (case field_text (map_of kvs k_text) of
             Inl e \<Rightarrow> Inl e
           | Inr s \<Rightarrow>
               (case field_done L (map_of kvs k_done) of
                  Inl e \<Rightarrow> Inl e
                | Inr d \<Rightarrow>
                    (case field_id L (map_of kvs k_id) of
                       Inl e \<Rightarrow> Inl e
                     | Inr n \<Rightarrow> Inr \<lparr>t_text = s, t_done = d, t_id = n\<rparr>)))
      | _ \<Rightarrow> Inl ValidationError)"

text \<open>\<open>model_dump()\<close>: the fields as a dict, in declaration order.\<close>

definition TodoCreate_model_dump :: "TodoCreate \<Rightarrow> (pystr \<times> json) list" where
  "TodoCreate_model_dump tc = [(k_text, JStr (t_text tc)), (k_done, JBool (t_done tc))]"

definition Todo_model_dump :: "Todo \<Rightarrow> (pystr \<times> json) list" where
  "Todo_model_dump t =
     [(k_text, JStr (t_text t)), (k_done, JBool (t_done t)), (k_id, JInt (t_id t))]"

text \<open>
  The constructors, called with Python values: \<open>TodoCreate(text=v, done=d)\<close> with any
  value for \<open>text\<close> and a boolean (or nothing) for \<open>done\<close>, and
  \<open>Todo(id=todo_id, text=s, done=d)\<close> with an integer, a string and a boolean. A value
  of the declared type passes the type check as it is, so only the text is examined;
  \<open>Todo_init_validate\<close> and \<open>TodoCreate_init_validate\<close> below show that this is the
  validation of the dict of the keyword arguments, whatever the string conversions.
\<close>

definition TodoCreate_init :: "json \<Rightarrow> bool option \<Rightarrow> error + TodoCreate" where
  "TodoCreate_init v d =
     (case field_text (Some v) of
        Inl e \<Rightarrow> Inl e
      | Inr s \<Rightarrow> Inr \<lparr>t_text = s, t_done = (case d of None \<Rightarrow> False | Some b \<Rightarrow> b)\<rparr>)"

definition Todo_init :: "int \<Rightarrow> pystr \<Rightarrow> bool \<Rightarrow> error + Todo" where
  "Todo_init todo_id s d =
     (case field_text (Some (JStr s)) of
        Inl e \<Rightarrow> Inl e
      | Inr s' \<Rightarrow> Inr \<lparr>t_text = s', t_done = d, t_id = todo_id\<rparr>)"

section \<open>persistence.py\<close>

text \<open>
  A Python dict keeps its keys unique and in insertion order: an association list.
  \<open>d[k] = v\<close> replaces the value of a key that is present, in place, and appends a new
  key at the end; \<open>del d[k]\<close> removes the entry.
\<close>

definition setitem :: "('k \<times> 'v) list \<Rightarrow> 'k \<Rightarrow> 'v \<Rightarrow> ('k \<times> 'v) list" where
  "setitem d k v = AList.update k v d"

definition delitem :: "('k \<times> 'v) list \<Rightarrow> 'k \<Rightarrow> ('k \<times> 'v) list" where
  "delitem d k = AList.delete k d"

text \<open>
  What is at \<open>filename\<close>: nothing (\<open>None\<close>), text that is not JSON, or a JSON document.
  \<open>json.dump\<close> followed by \<open>json.load\<close> gives back the value written, so the text of a
  document is not modelled, only its value. Opening and writing the file are taken to
  succeed; the lock is held by the one thread there is.
\<close>

datatype file_content = NotJSON | Document json

text \<open>
  A \<open>TodoDao\<close>: the dict \<open>todos\<close> and the file at \<open>filename\<close>. The dict is declared
  \<open>Dict[int, Todo]\<close>, and the methods below are modelled on a store of that type,
  \<open>int TodoDao\<close>. \<open>_read_all\<close> stores under the value it finds in the file, which need
  not be an integer, so what \<open>__init__\<close> builds is a \<open>pykey TodoDao\<close>.
\<close>

record 'k TodoDao =
  todos :: "('k \<times> Todo) list"
  datafile :: "file_content option"

datatype log_record = WARNING

text \<open>
  A loaded JSON value as a dict key. \<open>True\<close> and \<open>1\<close> (and \<open>False\<close> and \<open>0\<close>) are equal
  and hash alike, so they are one key; a string is a key of its own, different from
  every integer; a list and a dict are not hashable.
\<close>

datatype pykey = KInt int | KStr pystr | KNone

fun dict_key :: "json \<Rightarrow> error + pykey" where
  "dict_key (JInt n) = Inr (KInt n)"
| "dict_key (JBool b) = Inr (KInt (if b then 1 else 0))"
| "dict_key (JStr s) = Inr (KStr s)"
| "dict_key JNull = Inr KNone"
| "dict_key (JArr xs) = Inl TypeError"
| "dict_key (JObj kvs) = Inl TypeError"

text \<open>
  The loop of \<open>_read_all\<close>: \<open>todo_id = todo_data["id"]\<close>, then
  \<open>Todo.model_validate(todo_data)\<close>, then the store into the dict under \<open>todo_id\<close>, the
  value as it stands in the file, not the validated \<open>id\<close> of the record.
\<close>

fun read_items :: "lax \<Rightarrow> (pykey \<times> Todo) list \<Rightarrow> json list \<Rightarrow> error + (pykey \<times> Todo) list" where
  "read_items L d [] = Inr d"
| "read_items L d (todo_data # rest) =
     (case py_getitem todo_data k_id of
        Inl e \<Rightarrow> Inl e
      | Inr todo_id \<Rightarrow>
          (case Todo_model_validate L todo_data of
             Inl e \<Rightarrow> Inl e
           | Inr todo \<Rightarrow>
               (case dict_key todo_id of
                  Inl e \<Rightarrow> Inl e
                | Inr k \<Rightarrow> read_items L (setitem d k todo) rest)))"

text \<open>\<open>TodoDao._read_all\<close>, with the log records it emits.\<close>

definition read_all ::
  "lax \<Rightarrow> file_content option \<Rightarrow> (error + (pykey \<times> Todo) list) \<times> log_record list" where
  "read_all L f =
     (case f of
        None \<Rightarrow> (Inr [], [WARNING])
      | Some NotJSON \<Rightarrow> (Inl JSONDecodeError, [])
      | Some (Document j) \<Rightarrow>
          (case py_iter j of
             Inl e \<Rightarrow> (Inl e, [])
           | Inr items \<Rightarrow> (read_items L [] items, [])))"

text \<open>\<open>TodoDao.__init__\<close>.\<close>

definition TodoDao_init ::
  "lax \<Rightarrow> file_content option \<Rightarrow> (error + pykey TodoDao) \<times> log_record list" where
  "TodoDao_init L f =
     (case read_all L f of
        (Inl e, logs) \<Rightarrow> (Inl e, logs)
      | (Inr d, logs) \<Rightarrow> (Inr \<lparr>todos = d, datafile = f\<rparr>, logs))"

text \<open>
  A store of the declared type as \<open>__init__\<close> builds it: the same records and file, the
  integer keys as keys.
\<close>

definition untyped :: "int TodoDao \<Rightarrow> pykey TodoDao" where
  "untyped self =
     \<lparr>todos = map (\<lambda>kv. (KInt (fst kv), snd kv)) (todos self), datafile = datafile self\<rparr>"

text \<open>
  \<open>TodoDao._write_all\<close>: the list of the dumped records, then \<open>json.dump\<close> of it into the
  file, which replaces what the file held.
\<close>

definition serializable :: "Todo list \<Rightarrow> json list" where
  "serializable ts = map (\<lambda>t. JObj (Todo_model_dump t)) ts"

definition write_all :: "'k TodoDao \<Rightarrow> Todo list \<Rightarrow> 'k TodoDao" where
  "write_all self ts = self\<lparr>datafile := Some (Document (JArr (serializable ts)))\<rparr>"

text \<open>\<open>TodoDao._next_id\<close>.\<close>

definition next_id :: "int TodoDao \<Rightarrow> int" where
  "next_id self = (if todos self = [] then 1 else Max (set (map fst (todos self))) + 1)"

text \<open>\<open>TodoDao.get\<close> and \<open>TodoDao.get_all\<close>.\<close>

definition get :: "int TodoDao \<Rightarrow> int \<Rightarrow> Todo option" where
  "get self todo_id = map_of (todos self) todo_id"

definition get_all :: "'k TodoDao \<Rightarrow> Todo list" where
  "get_all self = map snd (todos self)"

text \<open>
  The mutating methods return what the call returns or raises, and the object after the
  call. An exception leaves the object as the statements before the \<open>raise\<close> left it.
  In \<open>save\<close>, \<open>**todo_create.model_dump()\<close> passes the two fields of the \<open>TodoCreate\<close>
  as the keyword arguments \<open>text\<close> and \<open>done\<close>.
\<close>

definition save :: "int TodoDao \<Rightarrow> TodoCreate \<Rightarrow> (error + Todo) \<times> int TodoDao" where
  "save self todo_create =
     (let todo_id = next_id self in
      case Todo_init todo_id (t_text todo_create) (t_done todo_create) of
        Inl e \<Rightarrow> (Inl e, self)
      | Inr todo \<Rightarrow>
          (let self' = self\<lparr>todos := setitem (todos self) todo_id todo\<rparr>
           in (Inr todo, write_all self' (get_all self'))))"

definition update :: "int TodoDao \<Rightarrow> Todo \<Rightarrow> (error + Todo) \<times> int TodoDao" where
  "update self todo =
     (let todo_id = t_id todo in
      if todo_id \<notin> fst ` set (todos self) then (Inl ValueError, self)
      else
        (let self' = self\<lparr>todos := setitem (todos self) todo_id todo\<rparr>
         in (Inr todo, write_all self' (get_all self'))))"

definition delete :: "int TodoDao \<Rightarrow> int \<Rightarrow> (error + unit) \<times> int TodoDao" where
  "delete self todo_id =
     (if todo_id \<notin> fst ` set (todos self) then (Inl ValueError, self)
      else
        (let self' = self\<lparr>todos := delitem (todos self) todo_id\<rparr>
         in (Inr (), write_all self' (get_all self'))))"

section \<open>Callers and properties\<close>

text \<open>
  How the callers in the repository save: the tests call
  \<open>dao.save(TodoCreate(text=...))\<close>, and for \<open>POST /todos/\<close> the framework builds the
  \<open>TodoCreate\<close> from the request before \<open>create_todo\<close> calls \<open>dao.save\<close>. The creation
  input is the value given for \<open>text\<close> and the optional boolean \<open>done\<close>.
\<close>

definition save_new ::
  "int TodoDao \<Rightarrow> json \<Rightarrow> bool option \<Rightarrow> (error + Todo) \<times> int TodoDao" where
  "save_new self v d =
     (case TodoCreate_init v d of
        Inl e \<Rightarrow> (Inl e, self)
      | Inr todo_create \<Rightarrow> save self todo_create)"

text \<open>The store \<open>TodoDao(filename)\<close> gives when there is no file.\<close>

definition empty_dao :: "'k TodoDao" where
  "empty_dao = \<lparr>todos = [], datafile = None\<rparr>"

text \<open>
  A caller's sequence of \<open>save\<close> and \<open>delete\<close> calls on one store. A call that raises
  leaves the store to the next call as the exception left it. \<open>assigned\<close> lists the ids
  of the records the \<open>save\<close> calls of the sequence returned, in call order.
\<close>

datatype op = Save TodoCreate | Delete int

fun apply_op :: "int TodoDao \<Rightarrow> op \<Rightarrow> int TodoDao" where
  "apply_op self (Save tc) = snd (save self tc)"
| "apply_op self (Delete k) = snd (delete self k)"

fun run :: "int TodoDao \<Rightarrow> op list \<Rightarrow> int TodoDao" where
  "run self [] = self"
| "run self (x # ops) = run (apply_op self x) ops"

fun assigned :: "int TodoDao \<Rightarrow> op list \<Rightarrow> int list" where
  "assigned self [] = []"
| "assigned self (Save tc # ops) =
     (case save self tc of
        (Inl e, self') \<Rightarrow> assigned self' ops
      | (Inr t, self') \<Rightarrow> t_id t # assigned self' ops)"
| "assigned self (Delete k # ops) = assigned (snd (delete self k)) ops"

text \<open>A sequence of \<open>save\<close> calls: what each call returned, and the store at the end.\<close>

fun save_all ::
  "int TodoDao \<Rightarrow> TodoCreate list \<Rightarrow> (error + Todo) list \<times> int TodoDao" where
  "save_all self [] = ([], self)"
| "save_all self (tc # tcs) =
     (case save self tc of
        (r, self') \<Rightarrow> (case save_all self' tcs of (rs, self'') \<Rightarrow> (r # rs, self'')))"

text \<open>
  A mapping of valid records: the keys are distinct (as in any dict), every record is
  stored under its own id, and its text is what validation returns: stripped and of at
  least \<open>MIN_TEXT_LENGTH\<close> characters.
\<close>

definition valid_todo :: "int \<Rightarrow> Todo \<Rightarrow> bool" where
  "valid_todo k t \<longleftrightarrow>
     t_id t = k \<and> strip (t_text t) = t_text t \<and> MIN_TEXT_LENGTH \<le> length (t_text t)"

definition valid_todos :: "(int \<times> Todo) list \<Rightarrow> bool" where
  "valid_todos d \<longleftrightarrow> distinct (map fst d) \<and> list_all (\<lambda>kv. valid_todo (fst kv) (snd kv)) d"

text \<open>
  A record object of the file that misses a required field (\<open>id\<close> or \<open>text\<close>; \<open>done\<close> has
  a default), or whose text is not a string, or is shorter than \<open>MIN_TEXT_LENGTH\<close> once
  stripped.
\<close>

definition malformed_record :: "json \<Rightarrow> bool" where
  "malformed_record x =
     (case x of
        JObj kvs \<Rightarrow>
          (case map_of kvs k_id of
             None \<Rightarrow> True
           | Some i \<Rightarrow>
               (case map_of kvs k_text of
                  None \<Rightarrow> True
                | Some (JStr s) \<Rightarrow> length (strip s) < MIN_TEXT_LENGTH
                | Some _ \<Rightarrow> True))
      | _ \<Rightarrow> False)"

text \<open>
  What one round of the loop of \<open>_read_all\<close> stores for an element of the file: the key
  and the record, or the exception. \<open>last_wins\<close> is the mapping a list of entries stored
  in order amounts to: a later entry replaces an earlier one with the same key.
\<close>

definition entry_of :: "lax \<Rightarrow> json \<Rightarrow> error + (pykey \<times> Todo)" where
  "entry_of L x =
     (case py_getitem x k_id of
        Inl e \<Rightarrow> Inl e
      | Inr todo_id \<Rightarrow>
          (case Todo_model_validate L x of
             Inl e \<Rightarrow> Inl e
           | Inr todo \<Rightarrow>
               (case dict_key todo_id of
                  Inl e \<Rightarrow> Inl e
                | Inr k \<Rightarrow> Inr (k, todo))))"

definition last_wins :: "('k \<times> 'v) list \<Rightarrow> 'k \<Rightarrow> 'v option" where
  "last_wins kvs = map_of (rev kvs)"

text \<open>
  The file as the specification describes it, for a mapping: a JSON array with one
  object per record of the mapping, in the mapping's order, each with the string
  \<open>text\<close>, the boolean \<open>done\<close> and the integer \<open>id\<close> of the record.
\<close>

definition spec_file :: "('k \<times> Todo) list \<Rightarrow> file_content" where
  "spec_file d =
     Document (JArr (map (\<lambda>kv.
       JObj [(str ''text'', JStr (t_text (snd kv))),
             (str ''done'', JBool (t_done (snd kv))),
             (str ''id'', JInt (t_id (snd kv)))]) d))"

text \<open>Inputs for the examples.\<close>

definition ex_create :: "string \<Rightarrow> TodoCreate" where
  "ex_create s = \<lparr>t_text = str s, t_done = False\<rparr>"

definition ex_todo :: "int \<Rightarrow> string \<Rightarrow> bool \<Rightarrow> Todo" where
  "ex_todo i s d = \<lparr>t_text = str s, t_done = d, t_id = i\<rparr>"

definition ex_record :: "int \<Rightarrow> string \<Rightarrow> json" where
  "ex_record i s = JObj [(k_id, JInt i), (k_text, JStr (str s)), (k_done, JBool False)]"

text \<open>
  The stores of the examples: two saves on the empty store, then \<open>delete(1)\<close>, then
  one more save. A file that holds the id 1 twice, once as the string \<open>"1"\<close> and once as
  the number \<open>1\<close>, and string conversions that read \<open>"1"\<close> as 1 and no other string.
\<close>

definition ex_saved2 :: "int TodoDao" where
  "ex_saved2 = run empty_dao [Save (ex_create ''First''), Save (ex_create ''Second'')]"

definition ex_deleted1 :: "int TodoDao" where
  "ex_deleted1 = snd (delete ex_saved2 1)"

definition ex_saved3 :: "int TodoDao" where
  "ex_saved3 = snd (save ex_deleted1 (ex_create ''Third''))"

definition ex_file :: "file_content option" where
  "ex_file =
     Some (Document (JArr
       [JObj [(k_id, JStr (str ''1'')), (k_text, JStr (str ''ab''))],
        JObj [(k_id, JInt 1), (k_text, JStr (str ''cd''))]]))"

definition ex_lax :: lax where
  "ex_lax =
     \<lparr>str_as_int = (\<lambda>s. if s = str ''1'' then Some 1 else None),
      str_as_bool = (\<lambda>s. None)\<rparr>"

section \<open>Basic facts\<close>

lemma k_distinct: "k_text \<noteq> k_done" "k_text \<noteq> k_id" "k_done \<noteq> k_id"
  "k_done \<noteq> k_text" "k_id \<noteq> k_text" "k_id \<noteq> k_done"
  by (simp_all add: k_text_def k_done_def k_id_def str_def)

subsection \<open>The dict\<close>

lemma setitem_fresh: "k \<notin> fst ` set d \<Longrightarrow> setitem d k v = d @ [(k, v)]"
  unfolding setitem_def by (induction d) auto

lemma map_of_setitem: "map_of (setitem d k v) = (map_of d)(k \<mapsto> v)"
  by (simp add: setitem_def update_conv')

lemma keys_setitem: "fst ` set (setitem d k v) = insert k (fst ` set d)"
  by (simp add: setitem_def dom_update)

lemma distinct_setitem: "distinct (map fst d) \<Longrightarrow> distinct (map fst (setitem d k v))"
  by (simp add: setitem_def distinct_update)

lemma delitem_filter: "delitem d k = filter (\<lambda>kv. fst kv \<noteq> k) d"
  by (induction d) (auto simp add: delitem_def)

lemma map_of_delitem: "map_of (delitem d k) = (map_of d)(k := None)"
  by (simp add: delitem_def delete_conv')

lemma length_filter_key:
  "distinct (map fst d) \<Longrightarrow> k \<in> fst ` set d \<Longrightarrow>
     length (filter (\<lambda>kv. fst kv \<noteq> k) d) + 1 = length d"
proof (induction d)
  case Nil
  then show ?case by simp
next
  case (Cons a d)
  show ?case
  proof (cases "fst a = k")
    case True
    with Cons.prems have "k \<notin> fst ` set d" by auto
    then have "filter (\<lambda>kv. fst kv \<noteq> k) d = d"
      by (auto simp add: filter_id_conv)
    with True show ?thesis by simp
  next
    case False
    with Cons show ?thesis by auto
  qed
qed

subsection \<open>Stripping and validation\<close>

lemma rstrip_Cons:
  "\<not> isspace x \<Longrightarrow> rstrip (x # s) = x # rstrip s"
  by (simp add: rstrip_def dropWhile_append3)

lemma lstrip_rstrip_lstrip: "lstrip (rstrip (lstrip s)) = rstrip (lstrip s)"
proof (cases "lstrip s")
  case Nil
  show ?thesis
    unfolding Nil by (simp add: rstrip_def lstrip_def)
next
  case (Cons x t)
  then have "\<not> isspace x"
    using hd_dropWhile [of isspace s] by (auto simp add: lstrip_def)
  then have "lstrip (rstrip (x # t)) = rstrip (x # t)"
    by (simp add: rstrip_Cons lstrip_def)
  then show ?thesis
    unfolding Cons .
qed

lemma rstrip_rstrip: "rstrip (rstrip s) = rstrip s"
  by (simp add: rstrip_def)

lemma strip_strip: "strip (strip s) = strip s"
  by (simp add: strip_def lstrip_rstrip_lstrip rstrip_rstrip)

lemma length_str: "length (str s) = length s"
  by (simp add: str_def)

lemma field_text_str:
  "field_text (Some (JStr s)) =
     (if length (strip s) < 2 then Inl ValidationError else Inr (strip s))"
  by (simp add: field_text_def validate_text_def MIN_TEXT_LENGTH_def Let_def)

lemma field_text_fail:
  "(\<And>s. v \<noteq> Some (JStr s)) \<Longrightarrow> field_text v = Inl ValidationError"
  by (auto simp add: field_text_def split: option.splits json.splits)

lemma Todo_init_conv:
  "Todo_init n s d =
     (if length (strip s) < 2 then Inl ValidationError
      else Inr \<lparr>t_text = strip s, t_done = d, t_id = n\<rparr>)"
  by (simp add: Todo_init_def field_text_str)

lemma Todo_init_validate:
  "Todo_model_validate L (JObj ((k_id, JInt n) # TodoCreate_model_dump c)) =
     Todo_init n (t_text c) (t_done c)"
  by (simp add: Todo_init_conv TodoCreate_model_dump_def Todo_model_validate_def
      field_text_str field_done_def field_id_def k_distinct)

lemma TodoCreate_init_conv:
  "TodoCreate_init v d =
     (case v of
        JStr s \<Rightarrow>
          if length (strip s) < 2 then Inl ValidationError
          else Inr \<lparr>t_text = strip s, t_done = (case d of None \<Rightarrow> False | Some b \<Rightarrow> b)\<rparr>
      | _ \<Rightarrow> Inl ValidationError)"
  by (cases v) (simp_all add: TodoCreate_init_def field_text_str field_text_fail)

lemma TodoCreate_init_validate:
  "TodoCreate_model_validate L
     (JObj ((k_text, v) # (case d of None \<Rightarrow> [] | Some b \<Rightarrow> [(k_done, JBool b)]))) =
   TodoCreate_init v d"
  by (cases v; cases d)
     (simp_all add: TodoCreate_init_conv TodoCreate_model_validate_def field_text_str
       field_text_fail field_done_def k_distinct)

lemma validate_dump:
  assumes "strip (t_text t) = t_text t" and "MIN_TEXT_LENGTH \<le> length (t_text t)"
  shows "Todo_model_validate L (JObj (Todo_model_dump t)) = Inr t"
  using assms
  by (simp add: Todo_model_validate_def Todo_model_dump_def field_text_str field_done_def
      field_id_def k_distinct MIN_TEXT_LENGTH_def)

lemma validate_entry:
  assumes "Todo_model_validate L x = Inr t"
  shows "\<exists>k. entry_of L x = Inr (k, t)"
proof -
  from assms obtain kvs where x: "x = JObj kvs"
    by (cases x) (simp_all add: Todo_model_validate_def)
  from assms have "\<not> isl (field_id L (map_of kvs k_id))"
    by (auto simp add: x Todo_model_validate_def split: sum.splits)
  then obtain raw where raw: "map_of kvs k_id = Some raw" and h: "\<not> isl (dict_key raw)"
    by (cases "map_of kvs k_id") (auto simp add: field_id_def split: json.splits)
  from h obtain k where "dict_key raw = Inr k"
    by (cases "dict_key raw") auto
  with raw assms show ?thesis
    by (simp add: entry_of_def x)
qed

lemma entry_of_dump:
  assumes "strip (t_text t) = t_text t" and "MIN_TEXT_LENGTH \<le> length (t_text t)"
  shows "entry_of L (JObj (Todo_model_dump t)) = Inr (KInt (t_id t), t)"
proof -
  have "py_getitem (JObj (Todo_model_dump t)) k_id = Inr (JInt (t_id t))"
    by (simp add: Todo_model_dump_def k_distinct)
  with validate_dump [OF assms, of L] show ?thesis
    by (simp add: entry_of_def)
qed

subsection \<open>The methods, unfolded\<close>

lemma next_id_gt: "k \<in> fst ` set (todos self) \<Longrightarrow> k < next_id self"
proof -
  assume k: "k \<in> fst ` set (todos self)"
  then have ne: "todos self \<noteq> []" by auto
  have "k \<le> Max (set (map fst (todos self)))"
    using k by (intro Max_ge) auto
  with ne show ?thesis by (simp add: next_id_def)
qed

lemma next_id_fresh: "next_id self \<notin> fst ` set (todos self)"
  using next_id_gt [of "next_id self" self] by auto

lemma next_id_upto:
  assumes "fst ` set (todos self) = {1..m}" and "0 \<le> m"
  shows "next_id self = m + 1"
proof (cases "todos self = []")
  case True
  with assms have "m = 0" by auto
  with True show ?thesis by (simp add: next_id_def)
next
  case False
  then have "fst ` set (todos self) \<noteq> {}" by simp
  with assms have "1 \<le> m" by auto
  then have "Max {1..m} = m" by (simp add: Max_eq_iff)
  with False assms show ?thesis by (simp add: next_id_def)
qed

lemma save_conv:
  "save self tc =
     (if length (strip (t_text tc)) < 2 then (Inl ValidationError, self)
      else (Inr \<lparr>t_text = strip (t_text tc), t_done = t_done tc, t_id = next_id self\<rparr>,
            self\<lparr>todos := todos self @
                    [(next_id self, \<lparr>t_text = strip (t_text tc), t_done = t_done tc, t_id = next_id self\<rparr>)],
                 datafile := Some (Document (JArr (serializable (map snd (todos self) @
                    [\<lparr>t_text = strip (t_text tc), t_done = t_done tc, t_id = next_id self\<rparr>]))))\<rparr>))"
  by (simp add: save_def Let_def Todo_init_conv setitem_fresh [OF next_id_fresh]
      write_all_def get_all_def)

lemma update_conv:
  "update self todo =
     (if t_id todo \<notin> fst ` set (todos self) then (Inl ValueError, self)
      else (Inr todo,
            self\<lparr>todos := setitem (todos self) (t_id todo) todo,
                 datafile := Some (Document (JArr (serializable
                    (map snd (setitem (todos self) (t_id todo) todo)))))\<rparr>))"
  by (simp add: update_def Let_def write_all_def get_all_def)

lemma delete_conv:
  "delete self k =
     (if k \<notin> fst ` set (todos self) then (Inl ValueError, self)
      else (Inr (),
            self\<lparr>todos := delitem (todos self) k,
                 datafile := Some (Document (JArr (serializable
                    (map snd (delitem (todos self) k)))))\<rparr>))"
  by (simp add: delete_def Let_def write_all_def get_all_def)

lemma get_None_iff: "get self k = None \<longleftrightarrow> k \<notin> fst ` set (todos self)"
  by (simp add: get_def map_of_eq_None_iff)

lemma save_new_conv:
  "save_new self v d =
     (case v of
        JStr s \<Rightarrow> save self \<lparr>t_text = strip s, t_done = (case d of None \<Rightarrow> False | Some b \<Rightarrow> b)\<rparr>
      | _ \<Rightarrow> (Inl ValidationError, self))"
  by (cases v) (simp_all add: save_new_def TodoCreate_init_conv save_conv strip_strip)

lemma TodoDao_init_missing: "TodoDao_init L None = (Inr empty_dao, [WARNING])"
  by (simp add: TodoDao_init_def read_all_def empty_dao_def)

lemma read_items_Cons:
  "read_items L acc (x # xs) =
     (case entry_of L x of
        Inl e \<Rightarrow> Inl e
      | Inr kt \<Rightarrow> read_items L (setitem acc (fst kt) (snd kt)) xs)"
  by (simp add: entry_of_def split: sum.splits)

text \<open>
  A store reached from a valid mapping by saves and deletes has a valid mapping: what
  \<open>save\<close> stores went through validation under the key it is stored at.
\<close>

lemma valid_todos_save:
  assumes "valid_todos (todos self)"
  shows "valid_todos (todos (snd (save self c)))"
proof (cases "length (strip (t_text c)) < 2")
  case True
  with assms show ?thesis by (simp add: save_conv)
next
  case False
  with assms next_id_fresh [of self] show ?thesis
    by (simp add: save_conv valid_todos_def valid_todo_def strip_strip MIN_TEXT_LENGTH_def)
qed

lemma valid_todos_delete:
  assumes "valid_todos (todos self)"
  shows "valid_todos (todos (snd (delete self k)))"
  using assms
  by (auto simp add: delete_conv delitem_filter valid_todos_def distinct_map_filter
      list_all_iff)

lemma valid_todos_run: "valid_todos (todos self) \<Longrightarrow> valid_todos (todos (run self ops))"
proof (induction ops arbitrary: self)
  case Nil
  then show ?case by simp
next
  case (Cons x ops)
  then show ?case
    by (cases x) (simp_all add: valid_todos_save valid_todos_delete)
qed

subsection \<open>The examples, evaluated\<close>

lemma pair_fstI: "fst p = a \<Longrightarrow> p = (a, snd p)"
  by (cases p) simp

lemma ex_strip:
  "strip (str ''a'') = str ''a''"
  "strip (str ''ab'') = str ''ab''"
  "strip (str ''  ab  '') = str ''ab''"
  "strip (str ''aa'') = str ''aa''"
  "strip (str ''bb'') = str ''bb''"
  "strip (str ''cc'') = str ''cc''"
  "strip (str ''cd'') = str ''cd''"
  "strip (str ''First'') = str ''First''"
  "strip (str ''Second'') = str ''Second''"
  "strip (str ''Third'') = str ''Third''"
  by (simp_all add: strip_def lstrip_def rstrip_def str_def isspace_def)

lemmas ex_eval = run.simps apply_op.simps assigned.simps save_all.simps save_conv delete_conv
  update_conv next_id_def delitem_filter empty_dao_def ex_create_def ex_todo_def ex_strip
  length_str get_def get_all_def

lemma ex_saved2_todos:
  "todos ex_saved2 = [(1, ex_todo 1 ''First'' False), (2, ex_todo 2 ''Second'' False)]"
  by (simp add: ex_saved2_def ex_eval)

lemma ex_deleted1_todos: "todos ex_deleted1 = [(2, ex_todo 2 ''Second'' False)]"
  by (simp add: ex_deleted1_def delete_conv delitem_filter ex_saved2_todos)

lemma ex_saved3_todos:
  "todos ex_saved3 = [(2, ex_todo 2 ''Second'' False), (3, ex_todo 3 ''Third'' False)]"
  by (simp add: ex_saved3_def save_conv next_id_def ex_deleted1_todos ex_create_def ex_todo_def
      ex_strip length_str)

section \<open>The claims\<close>

subsection \<open>C1: ids after a deletion\<close>

text \<open>
  Claim C1 says that, on a store that started empty, a \<open>save\<close> after a \<open>delete\<close> never
  assigns the deleted id, the new id exceeding every id ever assigned. The code does
  otherwise: \<open>_next_id\<close> looks at the ids present only (its docstring: an id "not
  currently used by any Todo"). One save, \<open>delete(1)\<close>, one more save: the history of
  assigned ids is \<open>[1]\<close>, the delete succeeds, and the second save assigns 1 again.
\<close>

theorem id_reused_after_delete:
  "assigned empty_dao [Save (ex_create ''ab''), Delete 1] = [1] \<and>
   fst (delete (run empty_dao [Save (ex_create ''ab'')]) 1) = Inr () \<and>
   fst (save (run empty_dao [Save (ex_create ''ab''), Delete 1]) (ex_create ''cd'')) =
     Inr (ex_todo 1 ''cd'' False)"
  by (simp add: ex_eval)

text \<open>
  Claim C1 as amended: on a store reached from the empty one by saves and deletes, after
  a successful \<open>delete(k)\<close> a successful \<open>save\<close> assigns 1 if the mapping is empty and
  otherwise the largest id present plus one; that id exceeds every id present, and it
  is not \<open>k\<close> when a record with an id above \<open>k\<close> is left. \<open>k\<close> is in the mapping
  afterwards exactly when the save assigned it again.
\<close>

theorem save_after_delete:
  assumes del: "delete (run empty_dao ops) k = (Inr (), self')"
      and sv: "save self' c = (Inr t, self'')"
  shows "t_id t = (if todos self' = [] then 1 else Max (fst ` set (todos self')) + 1) \<and>
         (\<forall>j \<in> fst ` set (todos self'). j < t_id t) \<and>
         ((\<exists>j \<in> fst ` set (todos self'). k < j) \<longrightarrow> t_id t \<noteq> k) \<and>
         get self'' k = (if t_id t = k then Some t else None)"
proof -
  from sv have ok: "\<not> length (strip (t_text c)) < 2"
    by (auto simp add: save_conv split: if_splits)
  from sv ok have t: "t_id t = next_id self'"
    by (auto simp add: save_conv)
  from sv ok have d: "todos self'' = todos self' @ [(next_id self', t)]"
    by (auto simp add: save_conv)
  from del have k: "k \<notin> fst ` set (todos self')"
    by (auto simp add: delete_conv delitem_filter split: if_splits)
  then have kn: "map_of (todos self') k = None"
    by (simp add: map_of_eq_None_iff)
  have gt: "\<forall>j \<in> fst ` set (todos self'). j < t_id t"
    using next_id_gt [of _ self'] by (simp add: t)
  have 1: "t_id t = (if todos self' = [] then 1 else Max (fst ` set (todos self')) + 1)"
    by (simp add: t next_id_def)
  have 3: "(\<exists>j \<in> fst ` set (todos self'). k < j) \<longrightarrow> t_id t \<noteq> k"
    using gt by force
  have 4: "get self'' k = (if t_id t = k then Some t else None)"
    by (simp add: get_def d t kn map_add_def)
  from 1 gt 3 4 show ?thesis by blast
qed

theorem save_after_delete_witness:
  "delete (run empty_dao [Save (ex_create ''First''), Save (ex_create ''Second'')]) 1 =
     (Inr (), ex_deleted1) \<and>
   save ex_deleted1 (ex_create ''Third'') = (Inr (ex_todo 3 ''Third'' False), ex_saved3) \<and>
   todos ex_deleted1 = [(2, ex_todo 2 ''Second'' False)] \<and>
   t_id (ex_todo 3 ''Third'' False) \<noteq> 1 \<and>
   get ex_saved3 1 = None"
proof -
  have "fst (delete ex_saved2 1) = Inr ()"
    by (simp add: delete_conv ex_saved2_todos)
  then have h1: "delete (run empty_dao [Save (ex_create ''First''), Save (ex_create ''Second'')]) 1 =
     (Inr (), ex_deleted1)"
    unfolding ex_deleted1_def ex_saved2_def by (rule pair_fstI)
  have "fst (save ex_deleted1 (ex_create ''Third'')) = Inr (ex_todo 3 ''Third'' False)"
    by (simp add: save_conv next_id_def ex_deleted1_todos ex_create_def ex_todo_def ex_strip
        length_str)
  then have h2: "save ex_deleted1 (ex_create ''Third'') = (Inr (ex_todo 3 ''Third'' False), ex_saved3)"
    unfolding ex_saved3_def by (rule pair_fstI)
  from save_after_delete [OF h1 h2]
  have "t_id (ex_todo 3 ''Third'' False) \<noteq> 1 \<and> get ex_saved3 1 = None"
    by (simp add: ex_deleted1_todos ex_todo_def)
  with h1 h2 ex_deleted1_todos show ?thesis by simp
qed

subsection \<open>C2: N saves on an empty store\<close>

lemma save_all_ids:
  assumes "fst ` set (todos self) = {1..m}" and "0 \<le> m"
      and "\<forall>kv \<in> set (todos self). t_id (snd kv) = fst kv"
      and "save_all self tcs = (map Inr ts, self')"
  shows "map t_id ts = [m + 1..m + int (length tcs)] \<and>
         fst ` set (todos self') = {1..m + int (length tcs)} \<and>
         (\<forall>kv \<in> set (todos self'). t_id (snd kv) = fst kv)"
  using assms
proof (induction tcs arbitrary: self m ts)
  case Nil
  then show ?case by auto
next
  case (Cons c tcs)
  obtain r s1 where s1: "save self c = (r, s1)" by (cases "save self c")
  obtain rs s2 where s2: "save_all s1 tcs = (rs, s2)" by (cases "save_all s1 tcs")
  from Cons.prems(4) s1 s2 have eq: "r # rs = map Inr ts" and s2': "s2 = self'"
    by simp_all
  then obtain t ts' where ts: "ts = t # ts'" "r = Inr t" "rs = map Inr ts'"
    by (cases ts) auto
  have nid: "next_id self = m + 1"
    using Cons.prems(1,2) by (rule next_id_upto)
  from s1 ts have ok: "\<not> length (strip (t_text c)) < 2"
    by (auto simp add: save_conv split: if_splits)
  from s1 ts ok have t: "t_id t = m + 1"
    by (auto simp add: save_conv nid)
  from s1 ts ok have d: "todos s1 = todos self @ [(m + 1, t)]"
    by (auto simp add: save_conv nid)
  have k1: "fst ` set (todos s1) = {1..m + 1}"
    using Cons.prems(1,2) by (auto simp add: d)
  have i1: "\<forall>kv \<in> set (todos s1). t_id (snd kv) = fst kv"
    using Cons.prems(3) by (auto simp add: d t)
  have "save_all s1 tcs = (map Inr ts', self')"
    using s2 s2' ts by simp
  from Cons.IH [OF k1 _ i1 this] Cons.prems(2)
  have IH: "map t_id ts' = [m + 1 + 1..m + 1 + int (length tcs)]"
    "fst ` set (todos self') = {1..m + 1 + int (length tcs)}"
    "\<forall>kv \<in> set (todos self'). t_id (snd kv) = fst kv"
    by auto
  have "[m + 1..m + int (length (c # tcs))] = (m + 1) # [m + 1 + 1..m + 1 + int (length tcs)]"
    by (subst upto_rec1) (simp_all add: ac_simps)
  with IH t ts show ?case
    by (simp add: ac_simps)
qed

text \<open>
  Claim C2: when every call of a sequence of \<open>save\<close> calls on a store with an empty
  mapping returns a record, the ids of the records returned are \<open>1, 2, ..., N\<close> in call
  order, and the ids of the records \<open>get_all\<close> returns afterwards are the set \<open>{1..N}\<close>.
\<close>

theorem saves_assign_1_to_N:
  assumes "todos self = []"
      and "save_all self tcs = (map Inr ts, self')"
  shows "map t_id ts = [1..int (length tcs)] \<and>
         t_id ` set (get_all self') = {1..int (length tcs)}"
proof -
  have "map t_id ts = [0 + 1..0 + int (length tcs)] \<and>
         fst ` set (todos self') = {1..0 + int (length tcs)} \<and>
         (\<forall>kv \<in> set (todos self'). t_id (snd kv) = fst kv)"
    using assms by (intro save_all_ids [of self]) auto
  then have a: "map t_id ts = [1..int (length tcs)]"
    and b: "fst ` set (todos self') = {1..int (length tcs)}"
    and c: "\<forall>kv \<in> set (todos self'). t_id (snd kv) = fst kv"
    by simp_all
  have "t_id ` set (get_all self') = fst ` set (todos self')"
    using c by (force simp add: get_all_def image_iff)
  with a b show ?thesis by simp
qed

theorem saves_assign_1_to_N_witness:
  "todos empty_dao = [] \<and>
   save_all empty_dao [ex_create ''First'', ex_create ''Second''] =
     (map Inr [ex_todo 1 ''First'' False, ex_todo 2 ''Second'' False], ex_saved2) \<and>
   map t_id [ex_todo 1 ''First'' False, ex_todo 2 ''Second'' False] = [1, 2] \<and>
   t_id ` set (get_all ex_saved2) = {1, 2}"
proof -
  have h1: "todos empty_dao = []"
    by (simp add: empty_dao_def)
  have h2: "save_all empty_dao [ex_create ''First'', ex_create ''Second''] =
     (map Inr [ex_todo 1 ''First'' False, ex_todo 2 ''Second'' False], ex_saved2)"
    by (simp add: ex_saved2_def ex_eval)
  have u: "[1..2] = [1, 2::int]"
    by (simp add: upto_rec1)
  have "{1..2} = {1, 2::int}"
    by auto
  with saves_assign_1_to_N [OF h1 h2] u
  have "map t_id [ex_todo 1 ''First'' False, ex_todo 2 ''Second'' False] = [1, 2] \<and>
        t_id ` set (get_all ex_saved2) = {1, 2}"
    by simp
  with h1 h2 show ?thesis by simp
qed

subsection \<open>C3: the file after a mutating call\<close>

lemma serializable_spec:
  "Document (JArr (serializable (map snd d))) = spec_file d"
  by (simp add: serializable_def spec_file_def Todo_model_dump_def k_text_def k_done_def
      k_id_def)

text \<open>
  Claim C3: when \<open>save\<close>, \<open>update\<close> or \<open>delete\<close> returns, the file holds the JSON
  array that has, for each record of the mapping as it is then and in the mapping's
  order, one object with the record's \<open>text\<close>, \<open>done\<close> and \<open>id\<close>: each record of the
  mapping and nothing else. \<open>spec_file\<close> writes that array out field by field; it
  does not go through \<open>_write_all\<close> or \<open>model_dump\<close>.
\<close>

theorem file_reflects_memory:
  "(save self tc = (Inr t, self') \<longrightarrow> datafile self' = Some (spec_file (todos self'))) \<and>
   (update self u = (Inr t, self') \<longrightarrow> datafile self' = Some (spec_file (todos self'))) \<and>
   (delete self k = (Inr (), self') \<longrightarrow> datafile self' = Some (spec_file (todos self')))"
proof (intro conjI impI)
  assume "save self tc = (Inr t, self')"
  then have "datafile self' = Some (Document (JArr (serializable (map snd (todos self')))))"
    by (auto simp add: save_conv split: if_splits)
  then show "datafile self' = Some (spec_file (todos self'))"
    by (simp only: serializable_spec)
next
  assume "update self u = (Inr t, self')"
  then have "datafile self' = Some (Document (JArr (serializable (map snd (todos self')))))"
    by (auto simp add: update_conv split: if_splits)
  then show "datafile self' = Some (spec_file (todos self'))"
    by (simp only: serializable_spec)
next
  assume "delete self k = (Inr (), self')"
  then have "datafile self' = Some (Document (JArr (serializable (map snd (todos self')))))"
    by (auto simp add: delete_conv split: if_splits)
  then show "datafile self' = Some (spec_file (todos self'))"
    by (simp only: serializable_spec)
qed

theorem file_reflects_memory_witness:
  "save ex_deleted1 (ex_create ''Third'') = (Inr (ex_todo 3 ''Third'' False), ex_saved3) \<and>
   datafile ex_saved3 =
     Some (Document (JArr
       [JObj [(str ''text'', JStr (str ''Second'')), (str ''done'', JBool False),
              (str ''id'', JInt 2)],
        JObj [(str ''text'', JStr (str ''Third'')), (str ''done'', JBool False),
              (str ''id'', JInt 3)]])) \<and>
   update ex_saved2 (ex_todo 1 ''First'' True) =
     (Inr (ex_todo 1 ''First'' True), snd (update ex_saved2 (ex_todo 1 ''First'' True))) \<and>
   datafile (snd (update ex_saved2 (ex_todo 1 ''First'' True))) =
     Some (Document (JArr
       [JObj [(str ''text'', JStr (str ''First'')), (str ''done'', JBool True),
              (str ''id'', JInt 1)],
        JObj [(str ''text'', JStr (str ''Second'')), (str ''done'', JBool False),
              (str ''id'', JInt 2)]])) \<and>
   delete ex_saved2 1 = (Inr (), ex_deleted1) \<and>
   datafile ex_deleted1 =
     Some (Document (JArr
       [JObj [(str ''text'', JStr (str ''Second'')), (str ''done'', JBool False),
              (str ''id'', JInt 2)]]))"
proof -
  have "fst (save ex_deleted1 (ex_create ''Third'')) = Inr (ex_todo 3 ''Third'' False)"
    by (simp add: save_conv next_id_def ex_deleted1_todos ex_create_def ex_todo_def ex_strip
        length_str)
  then have h1: "save ex_deleted1 (ex_create ''Third'') = (Inr (ex_todo 3 ''Third'' False), ex_saved3)"
    unfolding ex_saved3_def by (rule pair_fstI)
  have "fst (update ex_saved2 (ex_todo 1 ''First'' True)) = Inr (ex_todo 1 ''First'' True)"
    by (simp add: update_conv ex_saved2_todos ex_todo_def)
  then have h2: "update ex_saved2 (ex_todo 1 ''First'' True) =
     (Inr (ex_todo 1 ''First'' True), snd (update ex_saved2 (ex_todo 1 ''First'' True)))"
    by (rule pair_fstI)
  have "fst (delete ex_saved2 1) = Inr ()"
    by (simp add: delete_conv ex_saved2_todos)
  then have h3: "delete ex_saved2 1 = (Inr (), ex_deleted1)"
    unfolding ex_deleted1_def by (rule pair_fstI)
  have u: "todos (snd (update ex_saved2 (ex_todo 1 ''First'' True))) =
      [(1, ex_todo 1 ''First'' True), (2, ex_todo 2 ''Second'' False)]"
    by (simp add: update_conv ex_saved2_todos ex_todo_def setitem_def)
  have "datafile ex_saved3 = Some (spec_file (todos ex_saved3))"
    using file_reflects_memory [where self = ex_deleted1 and tc = "ex_create ''Third''"
        and t = "ex_todo 3 ''Third'' False" and self' = ex_saved3] h1
    by blast
  then have c1: "datafile ex_saved3 =
     Some (Document (JArr
       [JObj [(str ''text'', JStr (str ''Second'')), (str ''done'', JBool False),
              (str ''id'', JInt 2)],
        JObj [(str ''text'', JStr (str ''Third'')), (str ''done'', JBool False),
              (str ''id'', JInt 3)]]))"
    by (simp add: spec_file_def ex_saved3_todos ex_todo_def)
  have "datafile (snd (update ex_saved2 (ex_todo 1 ''First'' True))) =
     Some (spec_file (todos (snd (update ex_saved2 (ex_todo 1 ''First'' True)))))"
    using file_reflects_memory [where self = ex_saved2 and u = "ex_todo 1 ''First'' True"
        and t = "ex_todo 1 ''First'' True"
        and self' = "snd (update ex_saved2 (ex_todo 1 ''First'' True))"] h2
    by blast
  then have c2: "datafile (snd (update ex_saved2 (ex_todo 1 ''First'' True))) =
     Some (Document (JArr
       [JObj [(str ''text'', JStr (str ''First'')), (str ''done'', JBool True),
              (str ''id'', JInt 1)],
        JObj [(str ''text'', JStr (str ''Second'')), (str ''done'', JBool False),
              (str ''id'', JInt 2)]]))"
    unfolding spec_file_def u by (simp add: ex_todo_def)
  have "datafile ex_deleted1 = Some (spec_file (todos ex_deleted1))"
    using file_reflects_memory [where self = ex_saved2 and k = 1 and self' = ex_deleted1] h3
    by blast
  then have c3: "datafile ex_deleted1 =
     Some (Document (JArr
       [JObj [(str ''text'', JStr (str ''Second'')), (str ''done'', JBool False),
              (str ''id'', JInt 2)]]))"
    by (simp add: spec_file_def ex_deleted1_todos ex_todo_def)
  from h1 h2 h3 c1 c2 c3 show ?thesis by blast
qed

subsection \<open>C4: update of an id that is not there\<close>

text \<open>
  Claim C4: \<open>update\<close> with a record whose id is not in the mapping raises \<open>ValueError\<close>
  (the not-found condition) and leaves the store, mapping and file, as it was.
\<close>

theorem update_missing:
  "get self (t_id todo) = None \<Longrightarrow> update self todo = (Inl ValueError, self)"
  by (simp add: update_conv get_None_iff)

theorem update_missing_witness:
  "get ex_saved2 (t_id (ex_todo 999 ''Xy'' False)) = None \<and>
   update ex_saved2 (ex_todo 999 ''Xy'' False) = (Inl ValueError, ex_saved2)"
proof -
  have h: "get ex_saved2 (t_id (ex_todo 999 ''Xy'' False)) = None"
    by (simp add: get_def ex_saved2_todos ex_todo_def)
  from update_missing [OF h] h show ?thesis by simp
qed

subsection \<open>C5: delete\<close>

text \<open>
  Claim C5: \<open>delete\<close> of an id that is not in the mapping raises \<open>ValueError\<close> and
  leaves the store, mapping and file, as it was. \<open>delete\<close> of an id that is in the
  mapping returns, and the mapping is the one before without the entry of that id: the
  id is gone, every other id maps to what it did, and there is one record less.
\<close>

theorem delete_missing_or_present:
  "(get self k = None \<longrightarrow> delete self k = (Inl ValueError, self)) \<and>
   (get self k \<noteq> None \<longrightarrow>
      (\<exists>self'. delete self k = (Inr (), self') \<and>
         todos self' = filter (\<lambda>kv. fst kv \<noteq> k) (todos self) \<and>
         get self' k = None \<and>
         (\<forall>j. j \<noteq> k \<longrightarrow> get self' j = get self j) \<and>
         (distinct (map fst (todos self)) \<longrightarrow>
            length (get_all self') + 1 = length (get_all self))))"
proof (intro conjI impI)
  assume "get self k = None"
  then show "delete self k = (Inl ValueError, self)"
    by (simp add: delete_conv get_None_iff)
next
  assume present: "get self k \<noteq> None"
  then have k: "k \<in> fst ` set (todos self)"
    by (simp add: get_None_iff)
  define self' where
    "self' = self\<lparr>todos := delitem (todos self) k,
                  datafile := Some (Document (JArr (serializable
                    (map snd (delitem (todos self) k)))))\<rparr>"
  have 1: "delete self k = (Inr (), self')"
    using k by (simp add: delete_conv self'_def)
  have 2: "todos self' = filter (\<lambda>kv. fst kv \<noteq> k) (todos self)"
    by (simp add: self'_def delitem_filter)
  have 3: "get self' k = None"
    by (simp add: get_def self'_def map_of_delitem)
  have 4: "\<forall>j. j \<noteq> k \<longrightarrow> get self' j = get self j"
    by (simp add: get_def self'_def map_of_delitem)
  have 5: "length (get_all self') + 1 = length (get_all self)"
    if d: "distinct (map fst (todos self))"
    using length_filter_key [OF d k] by (simp add: get_all_def 2)
  show "\<exists>self'. delete self k = (Inr (), self') \<and>
         todos self' = filter (\<lambda>kv. fst kv \<noteq> k) (todos self) \<and>
         get self' k = None \<and>
         (\<forall>j. j \<noteq> k \<longrightarrow> get self' j = get self j) \<and>
         (distinct (map fst (todos self)) \<longrightarrow>
            length (get_all self') + 1 = length (get_all self))"
    using 1 2 3 4 5 by blast
qed

theorem delete_missing_or_present_witness:
  "get ex_saved2 7 = None \<and> delete ex_saved2 7 = (Inl ValueError, ex_saved2) \<and>
   get ex_saved2 1 \<noteq> None \<and> distinct (map fst (todos ex_saved2)) \<and>
   (\<exists>self'. delete ex_saved2 1 = (Inr (), self') \<and>
      todos self' = [(2, ex_todo 2 ''Second'' False)] \<and>
      get self' 1 = None \<and> get self' 2 = get ex_saved2 2 \<and>
      length (get_all self') + 1 = length (get_all ex_saved2))"
proof -
  have h1: "get ex_saved2 7 = None"
    by (simp add: get_def ex_saved2_todos)
  have h2: "get ex_saved2 1 \<noteq> None"
    by (simp add: get_def ex_saved2_todos)
  have h3: "distinct (map fst (todos ex_saved2))"
    by (simp add: ex_saved2_todos)
  have f: "filter (\<lambda>kv. fst kv \<noteq> 1) (todos ex_saved2) = [(2, ex_todo 2 ''Second'' False)]"
    by (simp add: ex_saved2_todos)
  from delete_missing_or_present [of ex_saved2 7] h1
  have c1: "delete ex_saved2 7 = (Inl ValueError, ex_saved2)"
    by blast
  from delete_missing_or_present [of ex_saved2 1] h2 h3
  obtain self' where "delete ex_saved2 1 = (Inr (), self')"
    "todos self' = filter (\<lambda>kv. fst kv \<noteq> 1) (todos ex_saved2)"
    "get self' 1 = None" "\<forall>j. j \<noteq> 1 \<longrightarrow> get self' j = get ex_saved2 j"
    "length (get_all self') + 1 = length (get_all ex_saved2)"
    by blast
  with f have "\<exists>self'. delete ex_saved2 1 = (Inr (), self') \<and>
      todos self' = [(2, ex_todo 2 ''Second'' False)] \<and>
      get self' 1 = None \<and> get self' 2 = get ex_saved2 2 \<and>
      length (get_all self') + 1 = length (get_all ex_saved2)"
    by auto
  with h1 h2 h3 c1 show ?thesis by blast
qed

subsection \<open>C6: the text rule\<close>

text \<open>
  Claim C6: saving a creation input fails exactly when the value given for \<open>text\<close> is
  not a string or is a string whose stripped form has fewer than two characters; the
  failure is a \<open>ValidationError\<close> (the invalid-input condition) and leaves the store as
  it was. When it succeeds, the stored record's text is the stripped string. The same
  holds for \<open>save\<close> called with a \<open>TodoCreate\<close> object, whose text it validates again.
\<close>

theorem save_text_rule:
  "(isl (fst (save_new self v d)) \<longleftrightarrow> (\<forall>s. v = JStr s \<longrightarrow> length (strip s) < 2)) \<and>
   (isl (fst (save_new self v d)) \<longrightarrow> save_new self v d = (Inl ValidationError, self)) \<and>
   (\<forall>s. v = JStr s \<longrightarrow> \<not> length (strip s) < 2 \<longrightarrow>
      (\<exists>t self'. save_new self v d = (Inr t, self') \<and> t_text t = strip s \<and>
         get self' (t_id t) = Some t)) \<and>
   (isl (fst (save self c)) \<longleftrightarrow> length (strip (t_text c)) < 2) \<and>
   (isl (fst (save self c)) \<longrightarrow> save self c = (Inl ValidationError, self))"
proof -
  have fresh: "map_of (todos self) (next_id self) = None"
    using next_id_fresh [of self] by (simp add: map_of_eq_None_iff)
  show ?thesis
    by (cases v) (simp_all add: save_new_conv save_conv strip_strip get_def fresh map_add_def)
qed

theorem save_text_rule_witness:
  "save_new empty_dao (JStr (str ''a'')) None = (Inl ValidationError, empty_dao) \<and>
   save_new empty_dao (JInt 5) None = (Inl ValidationError, empty_dao) \<and>
   (\<exists>t self'. save_new empty_dao (JStr (str ''ab'')) None = (Inr t, self') \<and>
      t_text t = str ''ab'' \<and> get self' (t_id t) = Some t) \<and>
   (\<exists>t self'. save_new empty_dao (JStr (str ''  ab  '')) None = (Inr t, self') \<and>
      t_text t = str ''ab'' \<and> get self' (t_id t) = Some t)"
proof -
  have a: "length (strip (str ''a'')) < 2"
    by (simp add: ex_strip length_str)
  have b: "\<not> length (strip (str ''ab'')) < 2" "\<not> length (strip (str ''  ab  '')) < 2"
    by (simp_all add: ex_strip length_str)
  have 1: "save_new empty_dao (JStr (str ''a'')) None = (Inl ValidationError, empty_dao)"
    using save_text_rule [of empty_dao "JStr (str ''a'')" None] a by simp
  have 2: "save_new empty_dao (JInt 5) None = (Inl ValidationError, empty_dao)"
    using save_text_rule [of empty_dao "JInt 5" None] by simp
  have 3: "\<exists>t self'. save_new empty_dao (JStr (str ''ab'')) None = (Inr t, self') \<and>
      t_text t = str ''ab'' \<and> get self' (t_id t) = Some t"
    using save_text_rule [of empty_dao "JStr (str ''ab'')" None] b by (simp add: ex_strip)
  have 4: "\<exists>t self'. save_new empty_dao (JStr (str ''  ab  '')) None = (Inr t, self') \<and>
      t_text t = str ''ab'' \<and> get self' (t_id t) = Some t"
    using save_text_rule [of empty_dao "JStr (str ''  ab  '')" None] b by (simp add: ex_strip)
  from 1 2 3 4 show ?thesis by blast
qed

subsection \<open>C7: write, then read\<close>

lemma read_items_dumped:
  assumes "valid_todos d" and "fst ` set acc \<inter> KInt ` fst ` set d = {}"
  shows "read_items L acc (serializable (map snd d)) =
           Inr (acc @ map (\<lambda>kv. (KInt (fst kv), snd kv)) d)"
  using assms
proof (induction d arbitrary: acc)
  case Nil
  then show ?case by (simp add: serializable_def)
next
  case (Cons kv d)
  obtain k t where kv: "kv = (k, t)" by (cases kv)
  from Cons.prems(1) have v: "valid_todo k t" and vd: "valid_todos d"
    and kd: "k \<notin> fst ` set d"
    by (auto simp add: valid_todos_def kv)
  from v have id: "t_id t = k" and e: "entry_of L (JObj (Todo_model_dump t)) = Inr (KInt k, t)"
    using entry_of_dump [of t L] by (simp_all add: valid_todo_def)
  from Cons.prems(2) have ka: "KInt k \<notin> fst ` set acc"
    by (auto simp add: kv)
  have disj: "fst ` set (acc @ [(KInt k, t)]) \<inter> KInt ` fst ` set d = {}"
    using Cons.prems(2) kd by (auto simp add: kv)
  have "read_items L acc (serializable (map snd (kv # d))) =
        read_items L (acc @ [(KInt k, t)]) (serializable (map snd d))"
    by (simp add: serializable_def kv read_items_Cons e setitem_fresh [OF ka]
        del: read_items.simps)
  also have "\<dots> = Inr ((acc @ [(KInt k, t)]) @ map (\<lambda>kv. (KInt (fst kv), snd kv)) d)"
    using vd disj by (rule Cons.IH)
  finally show ?case by (simp add: kv)
qed

text \<open>
  Claim C7: for a store with a mapping of valid records, \<open>_write_all\<close> of its records
  followed by \<open>TodoDao(filename)\<close> on the file written gives a store with the same
  mapping (the same ids, texts and done flags, in the same order, each record under its
  integer id) over that file, whatever the string conversions of the validation.
\<close>

theorem write_then_init_roundtrip:
  assumes "valid_todos (todos self)"
  shows "TodoDao_init L (datafile (write_all self (get_all self))) =
           (Inr (untyped (write_all self (get_all self))), [])"
proof -
  have "read_items L [] (serializable (map snd (todos self))) =
          Inr ([] @ map (\<lambda>kv. (KInt (fst kv), snd kv)) (todos self))"
    using assms by (intro read_items_dumped) simp_all
  then show ?thesis
    by (simp add: TodoDao_init_def read_all_def write_all_def get_all_def untyped_def)
qed

theorem write_then_init_roundtrip_witness:
  "valid_todos (todos ex_saved3) \<and>
   TodoDao_init ex_lax (datafile (write_all ex_saved3 (get_all ex_saved3))) =
     (Inr (untyped (write_all ex_saved3 (get_all ex_saved3))), []) \<and>
   todos (untyped (write_all ex_saved3 (get_all ex_saved3))) =
     [(KInt 2, ex_todo 2 ''Second'' False), (KInt 3, ex_todo 3 ''Third'' False)]"
proof -
  have h: "valid_todos (todos ex_saved3)"
    by (simp add: ex_saved3_todos valid_todos_def valid_todo_def ex_todo_def ex_strip
        length_str MIN_TEXT_LENGTH_def)
  have "todos (untyped (write_all ex_saved3 (get_all ex_saved3))) =
     [(KInt 2, ex_todo 2 ''Second'' False), (KInt 3, ex_todo 3 ''Third'' False)]"
    by (simp add: untyped_def write_all_def ex_saved3_todos)
  with write_then_init_roundtrip [OF h, of ex_lax] h show ?thesis by simp
qed

subsection \<open>C8: initialization from a missing or malformed file\<close>

lemma entry_of_errors:
  assumes "entry_of L x = Inl e"
  shows "e \<in> {TypeError, KeyError, ValidationError}"
proof -
  have g: "py_getitem x k_id = Inl TypeError \<or> py_getitem x k_id = Inl KeyError \<or>
           (\<exists>i. py_getitem x k_id = Inr i)"
    by (cases x) (auto split: option.splits)
  have v: "Todo_model_validate L x = Inl ValidationError \<or> (\<exists>t. Todo_model_validate L x = Inr t)"
    by (auto simp add: Todo_model_validate_def field_text_def field_done_def field_id_def
        validate_text_def Let_def
        split: json.splits option.splits sum.splits error.splits if_splits)
  have k: "dict_key i = Inl TypeError \<or> (\<exists>k. dict_key i = Inr k)" for i
    by (cases i) auto
  show ?thesis
  proof (cases "py_getitem x k_id")
    case (Inl e')
    with assms have "e = e'" by (simp add: entry_of_def)
    with g Inl show ?thesis by auto
  next
    case (Inr i)
    show ?thesis
    proof (cases "Todo_model_validate L x")
      case (Inl e')
      with assms Inr have "e = e'" by (simp add: entry_of_def)
      with v Inl show ?thesis by auto
    next
      case t: (Inr t)
      with assms Inr k [of i] show ?thesis
        by (auto simp add: entry_of_def)
    qed
  qed
qed

lemma malformed_fails:
  assumes "malformed_record x"
  shows "isl (entry_of L x)"
proof -
  from assms obtain kvs where x: "x = JObj kvs"
    by (cases x) (simp_all add: malformed_record_def)
  show ?thesis
  proof (cases "map_of kvs k_id")
    case None
    then show ?thesis by (simp add: x entry_of_def)
  next
    case (Some i)
    with assms have "field_text (map_of kvs k_text) = Inl ValidationError"
      by (auto simp add: x malformed_record_def field_text_str field_text_fail
          MIN_TEXT_LENGTH_def split: option.splits json.splits)
    with Some show ?thesis
      by (simp add: x entry_of_def Todo_model_validate_def)
  qed
qed

lemma read_items_malformed:
  assumes "x \<in> set xs" and "malformed_record x"
  shows "\<exists>e \<in> {TypeError, KeyError, ValidationError}. read_items L acc xs = Inl e"
  using assms
proof (induction xs arbitrary: acc)
  case Nil
  then show ?case by simp
next
  case (Cons a xs)
  show ?case
  proof (cases "entry_of L a")
    case (Inl e)
    with entry_of_errors [OF Inl] show ?thesis
      by (simp add: read_items_Cons del: read_items.simps)
  next
    case (Inr kt)
    then have "\<not> malformed_record a"
      using malformed_fails [of a L] by auto
    with Cons.prems have "x \<in> set xs" by auto
    from Cons.IH [OF this Cons.prems(2), of "setitem acc (fst kt) (snd kt)"] show ?thesis
      by (simp add: read_items_Cons Inr del: read_items.simps)
  qed
qed

text \<open>
  Claim C8: \<open>TodoDao(filename)\<close> gives the empty mapping and logs a warning when there
  is no file; it raises when the file is not JSON (\<open>JSONDecodeError\<close>), and when the
  file is a JSON array that holds a record object without \<open>id\<close> or without \<open>text\<close>, or
  with a text that is not a string or is shorter than two characters once stripped
  (\<open>KeyError\<close>, \<open>ValidationError\<close>, or \<open>TypeError\<close> for an earlier element that is no
  object): the malformed-store-file condition. This holds whatever the string
  conversions of the validation.
\<close>

theorem init_missing_or_malformed:
  "TodoDao_init L None = (Inr \<lparr>todos = [], datafile = None\<rparr>, [WARNING]) \<and>
   TodoDao_init L (Some NotJSON) = (Inl JSONDecodeError, []) \<and>
   ((\<exists>x \<in> set xs. malformed_record x) \<longrightarrow>
      (\<exists>e \<in> {TypeError, KeyError, ValidationError}.
         TodoDao_init L (Some (Document (JArr xs))) = (Inl e, [])))"
proof (intro conjI impI)
  show "TodoDao_init L None = (Inr \<lparr>todos = [], datafile = None\<rparr>, [WARNING])"
    by (simp add: TodoDao_init_def read_all_def)
  show "TodoDao_init L (Some NotJSON) = (Inl JSONDecodeError, [])"
    by (simp add: TodoDao_init_def read_all_def)
next
  assume "\<exists>x \<in> set xs. malformed_record x"
  then obtain x where "x \<in> set xs" "malformed_record x" by blast
  from read_items_malformed [OF this, of L "[]"]
  show "\<exists>e \<in> {TypeError, KeyError, ValidationError}.
         TodoDao_init L (Some (Document (JArr xs))) = (Inl e, [])"
    by (auto simp add: TodoDao_init_def read_all_def)
qed

theorem init_missing_or_malformed_witness:
  "malformed_record (JObj [(k_id, JInt 2), (k_text, JInt 5)]) \<and>
   isl (fst (TodoDao_init ex_lax (Some (Document (JArr
     [ex_record 1 ''ab'', JObj [(k_id, JInt 2), (k_text, JInt 5)]]))))) \<and>
   malformed_record (ex_record 1 ''a'') \<and>
   isl (fst (TodoDao_init ex_lax (Some (Document (JArr [ex_record 1 ''a'']))))) \<and>
   malformed_record (JObj [(k_text, JStr (str ''ab''))]) \<and>
   isl (fst (TodoDao_init ex_lax
     (Some (Document (JArr [JObj [(k_text, JStr (str ''ab''))]]))))) \<and>
   malformed_record (JObj [(k_id, JInt 1)]) \<and>
   isl (fst (TodoDao_init ex_lax (Some (Document (JArr [JObj [(k_id, JInt 1)]])))))"
proof -
  have m1: "malformed_record (JObj [(k_id, JInt 2), (k_text, JInt 5)])"
    by (simp add: malformed_record_def k_distinct)
  have m2: "malformed_record (ex_record 1 ''a'')"
    by (simp add: malformed_record_def ex_record_def k_distinct ex_strip length_str
        MIN_TEXT_LENGTH_def)
  have m3: "malformed_record (JObj [(k_text, JStr (str ''ab''))])"
    by (simp add: malformed_record_def k_distinct)
  have m4: "malformed_record (JObj [(k_id, JInt 1)])"
    by (simp add: malformed_record_def k_distinct)
  have c1: "isl (fst (TodoDao_init ex_lax (Some (Document (JArr
     [ex_record 1 ''ab'', JObj [(k_id, JInt 2), (k_text, JInt 5)]])))))"
    using init_missing_or_malformed
      [of ex_lax "[ex_record 1 ''ab'', JObj [(k_id, JInt 2), (k_text, JInt 5)]]"] m1
    by auto
  have c2: "isl (fst (TodoDao_init ex_lax (Some (Document (JArr [ex_record 1 ''a''])))))"
    using init_missing_or_malformed [of ex_lax "[ex_record 1 ''a'']"] m2
    by auto
  have c3: "isl (fst (TodoDao_init ex_lax
     (Some (Document (JArr [JObj [(k_text, JStr (str ''ab''))]])))))"
    using init_missing_or_malformed [of ex_lax "[JObj [(k_text, JStr (str ''ab''))]]"] m3
    by auto
  have c4: "isl (fst (TodoDao_init ex_lax (Some (Document (JArr [JObj [(k_id, JInt 1)]])))))"
    using init_missing_or_malformed [of ex_lax "[JObj [(k_id, JInt 1)]]"] m4
    by auto
  from m1 m2 m3 m4 c1 c2 c3 c4 show ?thesis by blast
qed

subsection \<open>C9: save never overwrites\<close>

text \<open>
  Claim C9: in every store, so in every non-empty one, the id a successful \<open>save\<close>
  assigns is greater than every id of the mapping; it was not in the mapping, the new
  record is stored under it, every other id maps to what it did, and \<open>get_all\<close> returns
  one record more.
\<close>

theorem save_fresh_id:
  assumes "save self tc = (Inr t, self')"
  shows "(\<forall>k \<in> fst ` set (todos self). k < t_id t) \<and>
         get self (t_id t) = None \<and>
         get self' (t_id t) = Some t \<and>
         (\<forall>k. k \<noteq> t_id t \<longrightarrow> get self' k = get self k) \<and>
         length (get_all self') = length (get_all self) + 1"
proof -
  from assms have ok: "\<not> length (strip (t_text tc)) < 2"
    by (auto simp add: save_conv split: if_splits)
  from assms ok have t: "t_id t = next_id self"
    by (auto simp add: save_conv)
  from assms ok have d: "todos self' = todos self @ [(next_id self, t)]"
    by (auto simp add: save_conv)
  have fresh: "map_of (todos self) (next_id self) = None"
    using next_id_fresh [of self] by (simp add: map_of_eq_None_iff)
  show ?thesis
    using fresh by (auto simp add: t d get_def get_all_def next_id_gt map_add_def
        split: option.splits)
qed

theorem save_fresh_id_witness:
  "save ex_deleted1 (ex_create ''Third'') = (Inr (ex_todo 3 ''Third'' False), ex_saved3) \<and>
   fst ` set (todos ex_deleted1) = {2} \<and> (2::int) < t_id (ex_todo 3 ''Third'' False) \<and>
   get ex_saved3 3 = Some (ex_todo 3 ''Third'' False) \<and>
   get ex_saved3 2 = get ex_deleted1 2 \<and>
   length (get_all ex_saved3) = length (get_all ex_deleted1) + 1"
proof -
  have "fst (save ex_deleted1 (ex_create ''Third'')) = Inr (ex_todo 3 ''Third'' False)"
    by (simp add: save_conv next_id_def ex_deleted1_todos ex_create_def ex_todo_def ex_strip
        length_str)
  then have h: "save ex_deleted1 (ex_create ''Third'') = (Inr (ex_todo 3 ''Third'' False), ex_saved3)"
    unfolding ex_saved3_def by (rule pair_fstI)
  have k: "fst ` set (todos ex_deleted1) = {2}"
    by (simp add: ex_deleted1_todos)
  have i: "t_id (ex_todo 3 ''Third'' False) = 3"
    by (simp add: ex_todo_def)
  from save_fresh_id [OF h] have
    "(\<forall>k \<in> {2}. k < t_id (ex_todo 3 ''Third'' False)) \<and>
     get ex_saved3 3 = Some (ex_todo 3 ''Third'' False) \<and>
     (\<forall>k. k \<noteq> 3 \<longrightarrow> get ex_saved3 k = get ex_deleted1 k) \<and>
     length (get_all ex_saved3) = length (get_all ex_deleted1) + 1"
    unfolding k i by blast
  with h k show ?thesis by simp
qed

subsection \<open>C10: a file with an id twice\<close>

lemma last_wins_Cons: "last_wins (kv # kvs) = [fst kv \<mapsto> snd kv] ++ last_wins kvs"
  by (cases kv) (simp add: last_wins_def)

text \<open>
  What the loop does with elements that are all stored: each key is in the mapping
  once, with the record of the last element stored under that key.
\<close>

lemma read_items_last_per_key:
  assumes "\<forall>x \<in> set xs. \<not> isl (entry_of L x)"
      and "distinct (map fst acc)"
  shows "\<exists>d. read_items L acc xs = Inr d \<and> distinct (map fst d) \<and>
           map_of d = map_of acc ++ last_wins (map (\<lambda>x. projr (entry_of L x)) xs)"
  using assms
proof (induction xs arbitrary: acc)
  case Nil
  then show ?case by (simp add: last_wins_def)
next
  case (Cons a xs)
  from Cons.prems(1) obtain k t where e: "entry_of L a = Inr (k, t)"
    by (cases "entry_of L a") auto
  have step: "read_items L acc (a # xs) = read_items L (setitem acc k t) xs"
    by (simp add: read_items_Cons e del: read_items.simps)
  from Cons.prems(1) have rest: "\<forall>x \<in> set xs. \<not> isl (entry_of L x)" by simp
  have dist: "distinct (map fst (setitem acc k t))"
    using Cons.prems(2) by (rule distinct_setitem)
  from Cons.IH [OF rest dist] obtain d where d: "read_items L (setitem acc k t) xs = Inr d"
    "distinct (map fst d)"
    "map_of d = map_of (setitem acc k t) ++ last_wins (map (\<lambda>x. projr (entry_of L x)) xs)"
    by blast
  have "map_of (setitem acc k t) ++ last_wins (map (\<lambda>x. projr (entry_of L x)) xs) =
        map_of acc ++ last_wins (map (\<lambda>x. projr (entry_of L x)) (a # xs))"
    by (rule ext) (simp add: map_of_setitem last_wins_Cons e map_add_def split: option.splits)
  with d step show ?case by simp
qed

text \<open>
  Claim C10 says that a file with otherwise valid records that share an id initializes
  a store whose mapping has, for that id, the last of these records only. The docstring
  of \<open>_read_all\<close> promises as much ("a dict of Todo items, keyed by Todo id"), and
  \<open>save\<close> and \<open>update\<close> store under the record's \<open>id\<close>. \<open>_read_all\<close> stores under the
  value as it stands in the file instead: with the id 1 once as the string \<open>"1"\<close> and
  once as the number \<open>1\<close>, and a validation that reads the string \<open>"1"\<close> as 1, both
  records pass validation with \<open>id\<close> 1, and the mapping keeps both, the first under the
  string key.
\<close>

theorem init_keeps_both_records_of_id_1:
  assumes "str_as_int L (str ''1'') = Some 1"
  shows "TodoDao_init L ex_file =
           (Inr \<lparr>todos = [(KStr (str ''1''), ex_todo 1 ''ab'' False),
                          (KInt 1, ex_todo 1 ''cd'' False)],
                 datafile = ex_file\<rparr>, [])"
  using assms
  by (simp add: TodoDao_init_def read_all_def ex_file_def Todo_model_validate_def
      field_text_str field_done_def field_id_def k_distinct ex_strip length_str ex_todo_def
      setitem_def)

theorem init_keeps_both_records_of_id_1_witness:
  "str_as_int ex_lax (str ''1'') = Some 1 \<and>
   TodoDao_init ex_lax ex_file =
     (Inr \<lparr>todos = [(KStr (str ''1''), ex_todo 1 ''ab'' False),
                    (KInt 1, ex_todo 1 ''cd'' False)],
           datafile = ex_file\<rparr>, []) \<and>
   map t_id (map snd [(KStr (str ''1''), ex_todo 1 ''ab'' False),
                      (KInt 1, ex_todo 1 ''cd'' False)]) = [1, 1]"
proof -
  have h: "str_as_int ex_lax (str ''1'') = Some 1"
    by (simp add: ex_lax_def)
  from init_keeps_both_records_of_id_1 [OF h] h show ?thesis
    by (simp add: ex_todo_def)
qed

end
